theory Spec2Isabelle
  imports Complex_Main
begin

section \<open>The travel itinerary store (data\_class.py, class TravelData)\<close>

text \<open>
  The class keeps \<^verbatim>\<open>self.data\<close>, an \<^verbatim>\<open>OrderedDict\<close> from a location name to a tuple
  of details, and rewrites a pickle file after every mutation. The model makes the
  three effects of the class explicit: the dictionary, the pickle file at
  \<^verbatim>\<open>self.file_path\<close>, and the lines written by \<^verbatim>\<open>print\<close>.
\<close>

subsection \<open>Python values\<close>

text \<open>
  The tuples stored by the class. \<^verbatim>\<open>add_location\<close>, \<^verbatim>\<open>change_transport\<close> and
  \<^verbatim>\<open>change_country\<close> build \<^verbatim>\<open>(country, lat, lon, days, transport)\<close>;
  \<^verbatim>\<open>change_days\<close> builds \<^verbatim>\<open>(country, lat, lon, new_days)\<close>. The coordinates are
  floats that the modelled methods only carry around, so their type is the
  parameter \<open>'f\<close>; \<^verbatim>\<open>days\<close> is a Python integer.
\<close>

datatype 'f details =
    Tup5 string 'f 'f int string
  | Tup4 string 'f 'f int

datatype exn = ValueError

text \<open>\<^verbatim>\<open>details[0]\<close> and \<^verbatim>\<open>details[3]\<close>.\<close>

fun country_of :: "'f details \<Rightarrow> string" where
  "country_of (Tup5 country lat lon days transport) = country"
| "country_of (Tup4 country lat lon days) = country"

fun days_of :: "'f details \<Rightarrow> int" where
  "days_of (Tup5 country lat lon days transport) = days"
| "days_of (Tup4 country lat lon days) = days"

text \<open>
  The two tuple unpackings of the source: \<^verbatim>\<open>country, lat, lon, _ = t\<close> needs a tuple of
  length four and \<^verbatim>\<open>country, lat, lon, days, _ = t\<close> one of length five; any other
  length raises \<^verbatim>\<open>ValueError\<close>.
\<close>

fun unpack4 :: "'f details \<Rightarrow> exn + (string \<times> 'f \<times> 'f \<times> int)" where
  "unpack4 (Tup4 country lat lon days) = Inr (country, lat, lon, days)"
| "unpack4 (Tup5 country lat lon days transport) = Inl ValueError"

fun unpack5 :: "'f details \<Rightarrow> exn + (string \<times> 'f \<times> 'f \<times> int \<times> string)" where
  "unpack5 (Tup5 country lat lon days transport) = Inr (country, lat, lon, days, transport)"
| "unpack5 (Tup4 country lat lon days) = Inl ValueError"

subsection \<open>The ordered dictionary\<close>

text \<open>
  An \<^verbatim>\<open>OrderedDict\<close> is the list of its items in iteration order; a dictionary
  never holds a key twice, which is the invariant \<open>od_wf\<close>.
\<close>

type_synonym ('k, 'v) odict = "('k \<times> 'v) list"

definition od_keys :: "('k, 'v) odict \<Rightarrow> 'k list" where
  "od_keys d = map fst d"

definition od_wf :: "('k, 'v) odict \<Rightarrow> bool" where
  "od_wf d = distinct (od_keys d)"

text \<open>\<^verbatim>\<open>k in d\<close>.\<close>

definition od_in :: "'k \<Rightarrow> ('k, 'v) odict \<Rightarrow> bool" where
  "od_in k d = (k \<in> set (od_keys d))"

text \<open>\<^verbatim>\<open>d[k] = v\<close>: an existing key keeps its place, a new key goes to the end.\<close>

fun od_setitem :: "'k \<Rightarrow> 'v \<Rightarrow> ('k, 'v) odict \<Rightarrow> ('k, 'v) odict" where
  "od_setitem k v [] = [(k, v)]"
| "od_setitem k v ((k', v') # d) =
     (if k' = k then (k', v) # d else (k', v') # od_setitem k v d)"

text \<open>\<^verbatim>\<open>del d[k]\<close>, also the dictionary left behind by \<^verbatim>\<open>d.pop(k)\<close>.\<close>

definition od_delitem :: "'k \<Rightarrow> ('k, 'v) odict \<Rightarrow> ('k, 'v) odict" where
  "od_delitem k d = filter (\<lambda>item. fst item \<noteq> k) d"

text \<open>\<^verbatim>\<open>d.update(other)\<close>: \<^verbatim>\<open>d[k] = v\<close> for every item of \<^verbatim>\<open>other\<close>, in order.\<close>

definition od_update :: "('k, 'v) odict \<Rightarrow> ('k, 'v) odict \<Rightarrow> ('k, 'v) odict" where
  "od_update d other = fold (\<lambda>(k, v) acc. od_setitem k v acc) other d"

subsection \<open>The store and its environment\<close>

text \<open>
  The geocoding service answers with coordinates, with nothing
  (\<^verbatim>\<open>geocode\<close> returns \<^verbatim>\<open>None\<close>), or raises \<^verbatim>\<open>GeocoderTimedOut\<close>.
\<close>

datatype 'f geo = Coordinate 'f 'f | NotFound | TimedOut

text \<open>
  The pickle file: it holds the pickle of a dictionary, or bytes that
  \<^verbatim>\<open>pickle.load\<close> rejects. Pickling is the library's business; the model keeps the
  pickled dictionary itself.
\<close>

datatype 'f file_content = Pickled "(string, 'f details) odict" | Garbage

text \<open>The lines printed by the class, one constructor for each \<^verbatim>\<open>print\<close> call.\<close>

datatype 'f msg =
    SavedMsg
  | SaveErrorMsg
  | LoadedMsg
  | LoadErrorMsg
  | NoExistingDataMsg
  | NoCoordinatesMsg string
  | GeoTimedOutMsg
  | SkippingMsg string
  | AddedMsg string int string 'f 'f
  | RemovedMsg string
  | NotInDataMsg string
  | NotInListMsg string
  | MovedMsg string string
  | ClearedMsg
  | DaysHeaderMsg
  | CountryDaysMsg string int
  | UpdatedDaysMsg string int
  | UpdatedTransportMsg string string
  | UpdatedCountryMsg string string
  | RenamedMsg string string

text \<open>
  \<open>data\<close> is \<^verbatim>\<open>self.data\<close>; \<open>disk\<close> is the content of the file at
  \<^verbatim>\<open>self.file_path\<close> (\<open>None\<close>: no such file); \<open>writable\<close> says whether opening
  that file for writing succeeds; \<open>printed\<close> is the standard output so far.
\<close>

record 'f world =
  data :: "(string, 'f details) odict"
  disk :: "'f file_content option"
  writable :: bool
  printed :: "'f msg list"

definition say :: "'f msg \<Rightarrow> 'f world \<Rightarrow> 'f world" where
  "say m w = w\<lparr>printed := printed w @ [m]\<rparr>"

subsection \<open>Persistence\<close>

definition save_data :: "'f world \<Rightarrow> 'f world" where
  "save_data w =
     (if writable w
      then say SavedMsg (w\<lparr>disk := Some (Pickled (data w))\<rparr>)
      else say SaveErrorMsg w)"

definition load_data :: "'f world \<Rightarrow> 'f world" where
  "load_data w =
     (case disk w of
        Some (Pickled d) \<Rightarrow> say LoadedMsg (w\<lparr>data := d\<rparr>)
      | Some Garbage \<Rightarrow> (say LoadErrorMsg w)\<lparr>data := []\<rparr>
      | None \<Rightarrow> say NoExistingDataMsg w)"

text \<open>\<^verbatim>\<open>TravelData(file_path)\<close>: an empty dictionary, then \<^verbatim>\<open>load_data\<close>.\<close>

definition init :: "'f file_content option \<Rightarrow> bool \<Rightarrow> 'f world" where
  "init f wr = load_data \<lparr>data = [], disk = f, writable = wr, printed = []\<rparr>"

definition clear_data :: "'f world \<Rightarrow> 'f world" where
  "clear_data w = say ClearedMsg (save_data (w\<lparr>data := []\<rparr>))"

subsection \<open>Adding, removing and moving locations\<close>

definition get_lat_lon ::
  "(string \<Rightarrow> 'f geo) \<Rightarrow> string \<Rightarrow> 'f world \<Rightarrow> ('f option \<times> 'f option) \<times> 'f world" where
  "get_lat_lon geocode location w =
     (case geocode location of
        Coordinate latitude longitude \<Rightarrow> ((Some latitude, Some longitude), w)
      | NotFound \<Rightarrow> ((None, None), say (NoCoordinatesMsg location) w)
      | TimedOut \<Rightarrow> ((None, None), say GeoTimedOutMsg w))"

text \<open>
  The loop of the \<^verbatim>\<open>"after"\<close> branch, shared in shape by \<^verbatim>\<open>add_location\<close> and
  \<^verbatim>\<open>move_location\<close>: copy every item into \<^verbatim>\<open>updated_data\<close> and set the new item
  right after the key \<^verbatim>\<open>after_place\<close>.
\<close>

definition after_loop ::
  "string \<Rightarrow> 'v \<Rightarrow> string option \<Rightarrow> (string, 'v) odict \<Rightarrow> (string, 'v) odict
     \<Rightarrow> (string, 'v) odict" where
  "after_loop name new_entry after_place items updated_data =
     fold (\<lambda>(key, value) upd.
             let upd' = od_setitem key value upd
             in if Some key = after_place then od_setitem name new_entry upd' else upd')
          items updated_data"

text \<open>\<^verbatim>\<open>after_place in self.data\<close>, where \<^verbatim>\<open>after_place\<close> may be \<^verbatim>\<open>None\<close>.\<close>

definition opt_in :: "'k option \<Rightarrow> ('k, 'v) odict \<Rightarrow> bool" where
  "opt_in after_place d = (case after_place of None \<Rightarrow> False | Some a \<Rightarrow> od_in a d)"

definition add_location ::
  "(string \<Rightarrow> 'f geo) \<Rightarrow> string \<Rightarrow> string \<Rightarrow> int \<Rightarrow> string \<Rightarrow> string \<Rightarrow> string option
     \<Rightarrow> 'f world \<Rightarrow> 'f world" where
  "add_location geocode name country days transport position after_place w =
     (case get_lat_lon geocode (name @ '', '' @ country) w of
        ((Some lat, Some lon), w1) \<Rightarrow>
          (let new_entry = Tup5 country lat lon days transport;
               w2 = (if position = ''start''
                     then w1\<lparr>data := od_update [(name, new_entry)] (data w1)\<rparr>
                     else if position = ''after'' \<and> opt_in after_place (data w1)
                     then w1\<lparr>data := after_loop name new_entry after_place (data w1) []\<rparr>
                     else w1\<lparr>data := od_setitem name new_entry (data w1)\<rparr>)
           in save_data (say (AddedMsg name days transport lat lon) w2))
      | (_, w1) \<Rightarrow> say (SkippingMsg name) w1)"

text \<open>The defaults \<^verbatim>\<open>transport="Unknown", position="end", after_place=None\<close>.\<close>

definition add_location_default ::
  "(string \<Rightarrow> 'f geo) \<Rightarrow> string \<Rightarrow> string \<Rightarrow> int \<Rightarrow> 'f world \<Rightarrow> 'f world" where
  "add_location_default geocode name country days w =
     add_location geocode name country days ''Unknown'' ''end'' None w"

definition remove_location :: "string \<Rightarrow> 'f world \<Rightarrow> 'f world" where
  "remove_location name w =
     (if od_in name (data w)
      then save_data (say (RemovedMsg name) (w\<lparr>data := od_delitem name (data w)\<rparr>))
      else say (NotInDataMsg name) w)"

text \<open>
  \<^verbatim>\<open>move_location\<close>: the membership test and \<^verbatim>\<open>self.data.pop(name)\<close> are the two
  cases of the lookup; \<open>rest\<close> is \<^verbatim>\<open>self.data\<close> after the pop.
\<close>

definition move_location :: "string \<Rightarrow> string \<Rightarrow> string option \<Rightarrow> 'f world \<Rightarrow> 'f world" where
  "move_location name new_position after_place w =
     (case map_of (data w) name of
        None \<Rightarrow> say (NotInListMsg name) w
      | Some location_details \<Rightarrow>
          (let rest = od_delitem name (data w);
               updated_data =
                 (if new_position = ''start''
                  then od_update [(name, location_details)] rest
                  else if new_position = ''after'' \<and> opt_in after_place rest
                  then after_loop name location_details after_place rest []
                  else od_setitem name location_details rest)
           in save_data (say (MovedMsg name new_position) (w\<lparr>data := updated_data\<rparr>))))"

subsection \<open>Changing a location\<close>

text \<open>
  The three field updates unpack the stored tuple; the unpacking raises
  \<^verbatim>\<open>ValueError\<close> before anything is written when the tuple has another length.
\<close>

definition change_days :: "string \<Rightarrow> int \<Rightarrow> 'f world \<Rightarrow> exn + 'f world" where
  "change_days name new_days w =
     (case map_of (data w) name of
        Some t \<Rightarrow>
          (case unpack4 t of
             Inl e \<Rightarrow> Inl e
           | Inr (country, lat, lon, _) \<Rightarrow>
               Inr (save_data (say (UpdatedDaysMsg name new_days)
                      (w\<lparr>data := od_setitem name (Tup4 country lat lon new_days) (data w)\<rparr>))))
      | None \<Rightarrow> Inr (say (NotInListMsg name) w))"

definition change_transport :: "string \<Rightarrow> string \<Rightarrow> 'f world \<Rightarrow> exn + 'f world" where
  "change_transport name new_transport w =
     (case map_of (data w) name of
        Some t \<Rightarrow>
          (case unpack5 t of
             Inl e \<Rightarrow> Inl e
           | Inr (country, lat, lon, days, _) \<Rightarrow>
               Inr (save_data (say (UpdatedTransportMsg name new_transport)
                      (w\<lparr>data := od_setitem name (Tup5 country lat lon days new_transport)
                                   (data w)\<rparr>))))
      | None \<Rightarrow> Inr (say (NotInListMsg name) w))"

definition change_country :: "string \<Rightarrow> string \<Rightarrow> 'f world \<Rightarrow> exn + 'f world" where
  "change_country name new_country w =
     (case map_of (data w) name of
        Some t \<Rightarrow>
          (case unpack5 t of
             Inl e \<Rightarrow> Inl e
           | Inr (_, lat, lon, days, transport) \<Rightarrow>
               Inr (save_data (say (UpdatedCountryMsg name new_country)
                      (w\<lparr>data := od_setitem name (Tup5 new_country lat lon days transport)
                                   (data w)\<rparr>))))
      | None \<Rightarrow> Inr (say (NotInListMsg name) w))"

text \<open>
  \<^verbatim>\<open>self.data[new_name] = self.data.pop(old_name)\<close>: the right-hand side runs first,
  so the item is set in the dictionary that no longer has \<^verbatim>\<open>old_name\<close>.
\<close>

definition change_location_name :: "string \<Rightarrow> string \<Rightarrow> 'f world \<Rightarrow> 'f world" where
  "change_location_name old_name new_name w =
     (case map_of (data w) old_name of
        Some t \<Rightarrow>
          save_data (say (RenamedMsg old_name new_name)
            (w\<lparr>data := od_setitem new_name t (od_delitem old_name (data w))\<rparr>))
      | None \<Rightarrow> say (NotInListMsg old_name) w)"

subsection \<open>Analysis\<close>

text \<open>
  \<^verbatim>\<open>country_days[country] += days\<close> on a \<^verbatim>\<open>defaultdict(int)\<close>: a missing key reads as
  \<^verbatim>\<open>0\<close> and is created at the end.
\<close>

definition dd_add :: "'k \<Rightarrow> int \<Rightarrow> ('k, int) odict \<Rightarrow> ('k, int) odict" where
  "dd_add k n d = od_setitem k ((case map_of d k of None \<Rightarrow> 0 | Some t \<Rightarrow> t) + n) d"

definition count_days :: "(string, 'f details) odict \<Rightarrow> (string, int) odict \<Rightarrow> (string, int) odict" where
  "count_days items country_days =
     fold (\<lambda>(place, details) cd. dd_add (country_of details) (days_of details) cd)
          items country_days"

text \<open>
  \<^verbatim>\<open>days_per_country\<close> prints the items sorted by \<^verbatim>\<open>-x[1]\<close> (Python's \<^verbatim>\<open>sorted\<close> is
  stable, as \<open>sort_key\<close> is) and returns \<^verbatim>\<open>country_days\<close> itself.
\<close>

definition days_listing :: "(string, int) odict \<Rightarrow> (string \<times> int) list" where
  "days_listing country_days = sort_key (\<lambda>x. - snd x) country_days"

definition days_per_country :: "'f world \<Rightarrow> (string, int) odict \<times> 'f world" where
  "days_per_country w =
     (let country_days = count_days (data w) []
      in (country_days,
          w\<lparr>printed := printed w @ DaysHeaderMsg #
               map (\<lambda>(country, days). CountryDaysMsg country days) (days_listing country_days)\<rparr>))"

definition total_days :: "'f world \<Rightarrow> int" where
  "total_days w = sum_list (map (\<lambda>(place, details). days_of details) (data w))"

subsection \<open>Example stores\<close>

text \<open>A geocoder that resolves every place, one that finds nothing, one that times out.\<close>

definition geocode_ok :: "string \<Rightarrow> real geo" where
  "geocode_ok location = Coordinate 48.8566 2.3522"

definition geocode_none :: "string \<Rightarrow> real geo" where
  "geocode_none location = NotFound"

definition geocode_late :: "string \<Rightarrow> real geo" where
  "geocode_late location = TimedOut"

definition london :: "real details" where
  "london = Tup5 ''UK'' 51.1537 (-0.1821) 0 ''Plane''"

definition oslo :: "real details" where
  "oslo = Tup5 ''Norway'' 59.9139 10.7522 4 ''Plane''"

definition bangkok :: "real details" where
  "bangkok = Tup5 ''Thailand'' 13.736717 100.523186 4 ''Bus''"

definition route :: "real world" where
  "route = \<lparr>data = [(''London'', london), (''Oslo'', oslo), (''Bangkok'', bangkok)],
            disk = None, writable = True, printed = []\<rparr>"

definition abc_trip :: "real world" where
  "abc_trip =
     add_location geocode_ok ''C'' ''X'' 1 ''Unknown'' ''end'' None
       (add_location geocode_ok ''B'' ''Y'' 3 ''Unknown'' ''end'' None
          (add_location geocode_ok ''A'' ''X'' 2 ''Unknown'' ''end'' None (init None True)))"

subsection \<open>Reference definitions for the analysis\<close>

text \<open>
  What the specification says of \<^verbatim>\<open>daysPerCountry\<close>, written down independently of the
  code: the countries of the itinerary, the total of a country (the sum of the days of
  the waypoints with that country), and the order in which values are first met in a
  list.
\<close>

definition countries :: "(string, 'f details) odict \<Rightarrow> string list" where
  "countries items = map (\<lambda>(place, details). country_of details) items"

definition country_total :: "(string, 'f details) odict \<Rightarrow> string \<Rightarrow> int" where
  "country_total items c =
     sum_list (map (\<lambda>(place, details). days_of details)
                   (filter (\<lambda>(place, details). country_of details = c) items))"

fun first_seen :: "'a list \<Rightarrow> 'a list" where
  "first_seen [] = []"
| "first_seen (x # xs) = x # removeAll x (first_seen xs)"

section \<open>Properties\<close>

subsection \<open>The ordered dictionary\<close>

lemma keys_setitem:
  "od_keys (od_setitem k v d) = (if k \<in> set (od_keys d) then od_keys d else od_keys d @ [k])"
  unfolding od_keys_def by (induction d) force+

lemma setitem_fresh: "k \<notin> set (od_keys d) \<Longrightarrow> od_setitem k v d = d @ [(k, v)]"
  unfolding od_keys_def by (induction d) auto

lemma wf_setitem: "od_wf d \<Longrightarrow> od_wf (od_setitem k v d)"
  by (simp add: od_wf_def keys_setitem)

lemma keys_delitem: "od_keys (od_delitem k d) = filter (\<lambda>x. x \<noteq> k) (od_keys d)"
  unfolding od_keys_def od_delitem_def by (induction d) auto

lemma wf_delitem: "od_wf d \<Longrightarrow> od_wf (od_delitem k d)"
  by (simp add: od_wf_def keys_delitem)

lemma delitem_absent: "k \<notin> set (od_keys d) \<Longrightarrow> od_delitem k d = d"
  unfolding od_keys_def od_delitem_def by (induction d) auto

lemma lookup_None_iff: "map_of d k = None \<longleftrightarrow> k \<notin> set (od_keys d)"
  by (simp add: od_keys_def map_of_eq_None_iff)

lemma fold_setitem_fresh:
  "distinct (od_keys src) \<Longrightarrow> set (od_keys acc) \<inter> set (od_keys src) = {} \<Longrightarrow>
   fold (\<lambda>(k, v) acc. od_setitem k v acc) src acc = acc @ src"
proof (induction src arbitrary: acc)
  case Nil then show ?case by simp
next
  case (Cons a src)
  obtain k v where a: "a = (k, v)" by (cases a)
  from Cons.prems have fresh: "k \<notin> set (od_keys acc)" by (auto simp: a od_keys_def)
  have "fold (\<lambda>(k, v) acc. od_setitem k v acc) src (acc @ [(k, v)]) = (acc @ [(k, v)]) @ src"
    using Cons.prems by (intro Cons.IH) (auto simp: a od_keys_def)
  then show ?case by (simp add: a setitem_fresh[OF fresh])
qed

lemma update_fresh:
  "od_wf other \<Longrightarrow> set (od_keys d) \<inter> set (od_keys other) = {} \<Longrightarrow> od_update d other = d @ other"
  by (simp add: od_update_def od_wf_def fold_setitem_fresh)

lemma keys_Nil: "od_keys [] = []"
  by (simp add: od_keys_def)

lemma keys_Cons: "od_keys ((k, v) # d) = k # od_keys d"
  by (simp add: od_keys_def)

lemma keys_append: "od_keys (d @ d') = od_keys d @ od_keys d'"
  by (simp add: od_keys_def)

lemma key_of_nth: "i < length d \<Longrightarrow> fst (d ! i) \<in> set (od_keys d)"
  by (simp add: od_keys_def)

lemma setitem_at_index:
  "distinct (od_keys d) \<Longrightarrow> i < length d \<Longrightarrow> fst (d ! i) = k \<Longrightarrow>
   od_setitem k v d = d[i := (k, v)]"
proof (induction d arbitrary: i)
  case Nil then show ?case by simp
next
  case (Cons a d)
  obtain k' v' where a: "a = (k', v')" by (cases a)
  show ?case
  proof (cases i)
    case 0
    with Cons.prems show ?thesis by (simp add: a)
  next
    case (Suc j)
    with Cons.prems have j: "j < length d" "fst (d ! j) = k" by simp_all
    then have "k \<in> set (od_keys d)" using key_of_nth by blast
    with Cons.prems have "k' \<noteq> k" by (auto simp: a keys_Cons)
    moreover have "od_setitem k v d = d[j := (k, v)]"
      using Cons.prems j by (intro Cons.IH) (simp_all add: a keys_Cons)
    ultimately show ?thesis by (simp add: a Suc)
  qed
qed

lemma lookup_setitem: "map_of (od_setitem k v d) k = Some v"
  by (induction d) auto

lemma lookup_setitem_other: "k' \<noteq> k \<Longrightarrow> map_of (od_setitem k v d) k' = map_of d k'"
  by (induction d) auto

lemma lookup_delitem_other: "k' \<noteq> k \<Longrightarrow> map_of (od_delitem k d) k' = map_of d k'"
  unfolding od_delitem_def by (induction d) auto

lemma keys_fold_setitem:
  "set (od_keys (fold (\<lambda>(k, v) acc. od_setitem k v acc) src acc)) = set (od_keys acc) \<union> set (od_keys src)"
proof (induction src arbitrary: acc)
  case Nil then show ?case by (simp add: od_keys_def)
next
  case (Cons a src)
  obtain k v where a: "a = (k, v)" by (cases a)
  have "set (od_keys (od_setitem k v acc)) = insert k (set (od_keys acc))"
    by (auto simp: keys_setitem)
  then show ?case unfolding a by (simp add: Cons.IH keys_Cons)
qed

lemma wf_fold_setitem:
  "od_wf acc \<Longrightarrow> od_wf (fold (\<lambda>(k, v) acc. od_setitem k v acc) src acc)"
  by (induction src arbitrary: acc) (auto simp: wf_setitem)

lemma keys_update: "set (od_keys (od_update d other)) = set (od_keys d) \<union> set (od_keys other)"
  by (simp add: od_update_def keys_fold_setitem)

lemma wf_update: "od_wf d \<Longrightarrow> od_wf (od_update d other)"
  by (simp add: od_update_def wf_fold_setitem)

lemma after_loop_Nil: "after_loop name e ap [] acc = acc"
  by (simp add: after_loop_def)

lemma after_loop_Cons:
  "after_loop name e ap ((k, v) # items) acc =
     after_loop name e ap items
       (if Some k = ap then od_setitem name e (od_setitem k v acc) else od_setitem k v acc)"
  by (simp add: after_loop_def Let_def)

lemma after_loop_append:
  "after_loop name e ap (xs @ ys) acc = after_loop name e ap ys (after_loop name e ap xs acc)"
  by (simp add: after_loop_def)

lemma wf_after_loop: "od_wf acc \<Longrightarrow> od_wf (after_loop name e ap items acc)"
proof (induction items arbitrary: acc)
  case Nil then show ?case by (simp add: after_loop_Nil)
next
  case (Cons a items)
  obtain k v where a: "a = (k, v)" by (cases a)
  show ?case unfolding a after_loop_Cons using Cons.prems by (intro Cons.IH) (simp add: wf_setitem)
qed

lemma keys_after_loop:
  "set (od_keys (after_loop name e ap items acc)) =
     set (od_keys acc) \<union> set (od_keys items) \<union> (if opt_in ap items then {name} else {})"
proof (induction items arbitrary: acc)
  case Nil then show ?case by (simp add: after_loop_Nil opt_in_def od_in_def keys_Nil split: option.splits)
next
  case (Cons a items)
  obtain k v where a: "a = (k, v)" by (cases a)
  have ins: "\<And>k v d. set (od_keys (od_setitem k v d)) = insert k (set (od_keys d))"
    by (auto simp: keys_setitem)
  show ?case
  proof (cases "Some k = ap")
    case True
    then have "opt_in ap ((k, v) # items)" by (auto simp: opt_in_def od_in_def keys_Cons)
    then show ?thesis unfolding a after_loop_Cons using True
      by (simp add: Cons.IH ins keys_Cons) blast
  next
    case False
    then have "opt_in ap ((k, v) # items) = opt_in ap items"
      by (auto simp: opt_in_def od_in_def keys_Cons split: option.splits)
    then show ?thesis unfolding a after_loop_Cons using False
      by (simp add: Cons.IH ins keys_Cons)
  qed
qed

lemma after_loop_absent:
  "\<not> opt_in ap items \<Longrightarrow>
   after_loop name e ap items acc = fold (\<lambda>(k, v) acc. od_setitem k v acc) items acc"
proof (induction items arbitrary: acc)
  case Nil then show ?case by (simp add: after_loop_Nil)
next
  case (Cons a items)
  obtain k v where a: "a = (k, v)" by (cases a)
  from Cons.prems have "Some k \<noteq> ap" "\<not> opt_in ap items"
    by (auto simp: a opt_in_def od_in_def od_keys_def split: option.splits)
  then show ?case unfolding a after_loop_Cons by (simp add: Cons.IH)
qed

lemma after_loop_split:
  assumes wf: "distinct (od_keys (pre @ (a, va) # post))"
    and acc: "set (od_keys acc) \<inter> set (od_keys (pre @ (a, va) # post)) = {}"
    and fresh: "name \<notin> set (od_keys acc)" "name \<notin> set (od_keys (pre @ (a, va) # post))"
  shows "after_loop name e (Some a) (pre @ (a, va) # post) acc
         = acc @ pre @ (a, va) # (name, e) # post"
proof -
  have a_pre: "\<not> opt_in (Some a) pre" and a_post: "\<not> opt_in (Some a) post"
    using wf by (auto simp: opt_in_def od_in_def od_keys_def)
  have 1: "after_loop name e (Some a) pre acc = acc @ pre"
    using wf acc by (simp add: after_loop_absent[OF a_pre]) (intro fold_setitem_fresh; auto simp: od_keys_def)
  have 2: "od_setitem a va (acc @ pre) = acc @ pre @ [(a, va)]"
    using wf acc by (subst setitem_fresh) (auto simp: od_keys_def)
  have 3: "od_setitem name e (acc @ pre @ [(a, va)]) = acc @ pre @ [(a, va), (name, e)]"
    using fresh by (subst setitem_fresh) (auto simp: od_keys_def)
  have 4: "after_loop name e (Some a) post (acc @ pre @ [(a, va), (name, e)])
           = (acc @ pre @ [(a, va), (name, e)]) @ post"
    using wf acc fresh
    by (simp only: after_loop_absent[OF a_post]) (intro fold_setitem_fresh; auto simp: od_keys_def)
  show ?thesis
    by (simp add: after_loop_append 1 after_loop_Cons 2 3 4)
qed

lemma after_loop_at_index:
  assumes wf: "od_wf items" and i: "i < length items" "fst (items ! i) = a"
    and fresh: "name \<notin> set (od_keys items)"
  shows "after_loop name e (Some a) items [] = take (Suc i) items @ (name, e) # drop (Suc i) items"
proof -
  obtain va where va: "items ! i = (a, va)" using i(2) by (cases "items ! i") auto
  have split: "items = take i items @ (a, va) # drop (Suc i) items"
    using i(1) va by (metis id_take_nth_drop)
  have "after_loop name e (Some a) (take i items @ (a, va) # drop (Suc i) items) []
        = [] @ take i items @ (a, va) # (name, e) # drop (Suc i) items"
    using wf fresh split by (intro after_loop_split) (simp_all add: od_wf_def od_keys_def)
  moreover have "take (Suc i) items = take i items @ [(a, va)]"
    using i(1) va by (simp add: take_Suc_conv_app_nth)
  ultimately show ?thesis using split by simp
qed

lemma update_existing_front:
  assumes wf: "od_wf d" and old: "map_of d name = Some old"
  shows "od_update [(name, e)] d = (name, old) # od_delitem name d"
proof -
  from old have "(name, old) \<in> set d" by (rule map_of_SomeD)
  then obtain pre post where d: "d = pre @ (name, old) # post" by (auto dest: split_list)
  from wf have np: "name \<notin> set (od_keys pre)" "name \<notin> set (od_keys post)"
    and dpre: "distinct (od_keys pre)" and dpost: "distinct (od_keys post)"
    and disj: "set (od_keys pre) \<inter> set (od_keys post) = {}"
    by (auto simp: d od_wf_def od_keys_def)
  have 1: "fold (\<lambda>(k, v) acc. od_setitem k v acc) pre [(name, e)] = [(name, e)] @ pre"
    using np dpre by (intro fold_setitem_fresh) (auto simp: od_keys_def)
  have 2: "fold (\<lambda>(k, v) acc. od_setitem k v acc) post ((name, old) # pre) = ((name, old) # pre) @ post"
    using np dpost disj by (intro fold_setitem_fresh) (auto simp: od_keys_def)
  have "od_delitem name d = pre @ post"
    using np by (simp add: d od_delitem_def od_keys_def) (metis (mono_tags, lifting) filter_id_conv imageI image_set)
  then show ?thesis by (simp add: od_update_def d 1 2)
qed

subsection \<open>Reading the store and evaluating examples\<close>

lemma data_say: "data (say m w) = data w"
  by (simp add: say_def)

lemma disk_say: "disk (say m w) = disk w"
  by (simp add: say_def)

lemma data_save_data: "data (save_data w) = data w"
  by (simp add: save_data_def say_def)

lemma count_list_distinct: "distinct xs \<Longrightarrow> x \<in> set xs \<Longrightarrow> count_list xs x = 1"
  by (induction xs) (auto simp: count_list_0_iff)

lemma same_keys_same_length:
  assumes "od_wf d" "od_wf d'" "set (od_keys d') = set (od_keys d)"
  shows "length d' = length d"
proof -
  have "length d' = card (set (od_keys d'))"
    using assms(2) by (simp add: od_wf_def distinct_card) (simp add: od_keys_def)
  also have "\<dots> = card (set (od_keys d))" by (simp add: assms(3))
  also have "\<dots> = length d"
    using assms(1) by (simp add: od_wf_def distinct_card) (simp add: od_keys_def)
  finally show ?thesis .
qed

lemmas route_simps = route_def london_def oslo_def bangkok_def od_wf_def od_keys_def od_in_def
  opt_in_def od_delitem_def

lemmas run_simps = add_location_def get_lat_lon_def geocode_ok_def geocode_none_def
  geocode_late_def save_data_def say_def od_update_def after_loop_def Let_def

subsection \<open>Field updates\<close>

lemma change_days_five_tuple:
  "map_of (data w) name = Some (Tup5 country lat lon days transport) \<Longrightarrow>
   change_days name new_days w = Inl ValueError"
  by (simp add: change_days_def)

lemma change_transport_five_tuple:
  "map_of (data w) name = Some (Tup5 country lat lon days transport) \<Longrightarrow>
   change_transport name new_transport w =
     Inr (save_data (say (UpdatedTransportMsg name new_transport)
            (w\<lparr>data := od_setitem name (Tup5 country lat lon days new_transport) (data w)\<rparr>)))"
  by (simp add: change_transport_def)

text \<open>
  C1: \<^verbatim>\<open>change_days(n, d)\<close> should set the duration of \<open>n\<close> to \<open>d\<close> and leave everything
  else as it was. On a location stored by \<^verbatim>\<open>add_location\<close> (a tuple of five) the
  unpacking into four names raises \<^verbatim>\<open>ValueError\<close> instead: here the store is created
  empty, Oslo is added, and its days are changed.
\<close>

theorem change_days_failing_input:
  "change_days ''Oslo'' 7
     (add_location geocode_ok ''Oslo'' ''Norway'' 4 ''Plane'' ''end'' None (init None True))
   = Inl ValueError"
  by (simp add: change_days_def add_location_def get_lat_lon_def geocode_ok_def init_def
      load_data_def save_data_def say_def)

text \<open>
  C2 (as the code has it): for a store holding \<open>old_name\<close>, \<^verbatim>\<open>change_location_name\<close>
  keeps the tuple of the renamed location unchanged under the new key and leaves every
  other key alone, but the location does not keep its place. When \<open>new_name\<close> is
  \<open>old_name\<close> itself or no key of the store, the location goes to the end of the
  sequence; when \<open>new_name\<close> is another existing key, that entry is overwritten
  where it stands and the old entry disappears.
\<close>

theorem change_location_name_effect:
  assumes "od_wf (data w)" and "map_of (data w) old_name = Some t"
  shows "map_of (data (change_location_name old_name new_name w)) new_name = Some t
       \<and> od_wf (data (change_location_name old_name new_name w))
       \<and> (new_name = old_name \<or> \<not> od_in new_name (data w) \<longrightarrow>
            data (change_location_name old_name new_name w)
              = od_delitem old_name (data w) @ [(new_name, t)])
       \<and> (i < length (od_delitem old_name (data w))
            \<and> fst (od_delitem old_name (data w) ! i) = new_name \<longrightarrow>
            data (change_location_name old_name new_name w)
              = (od_delitem old_name (data w))[i := (new_name, t)])
       \<and> (k \<noteq> old_name \<and> k \<noteq> new_name \<longrightarrow>
            map_of (data (change_location_name old_name new_name w)) k = map_of (data w) k)"
proof (intro conjI impI)
  let ?rest = "od_delitem old_name (data w)"
  have d: "data (change_location_name old_name new_name w) = od_setitem new_name t ?rest"
    using assms(2) by (simp add: change_location_name_def data_save_data data_say)
  have wf: "od_wf ?rest" using assms(1) by (rule wf_delitem)
  show "map_of (data (change_location_name old_name new_name w)) new_name = Some t"
    by (simp add: d lookup_setitem)
  show "od_wf (data (change_location_name old_name new_name w))"
    using wf by (simp add: d wf_setitem)
  show "data (change_location_name old_name new_name w) = ?rest @ [(new_name, t)]"
    if "new_name = old_name \<or> \<not> od_in new_name (data w)"
  proof -
    from that have "new_name \<notin> set (od_keys ?rest)"
      by (auto simp: keys_delitem od_in_def)
    then show ?thesis by (simp add: d setitem_fresh)
  qed
  show "data (change_location_name old_name new_name w) = ?rest[i := (new_name, t)]"
    if "i < length ?rest \<and> fst (?rest ! i) = new_name"
    using that wf by (simp add: d od_wf_def setitem_at_index)
  show "map_of (data (change_location_name old_name new_name w)) k = map_of (data w) k"
    if "k \<noteq> old_name \<and> k \<noteq> new_name"
    using that by (simp add: d lookup_setitem_other lookup_delitem_other)
qed

text \<open>
  Renaming London, the first of three stops, to Paris, and to itself, sends it to the
  end; renaming it to Bangkok overwrites Bangkok in its place.
\<close>

theorem change_location_name_effect_witness:
  "od_wf (data route) \<and> map_of (data route) ''London'' = Some london
   \<and> data (change_location_name ''London'' ''Paris'' route)
       = [(''Oslo'', oslo), (''Bangkok'', bangkok), (''Paris'', london)]
   \<and> data (change_location_name ''London'' ''London'' route)
       = [(''Oslo'', oslo), (''Bangkok'', bangkok), (''London'', london)]
   \<and> data (change_location_name ''London'' ''Bangkok'' route)
       = [(''Oslo'', oslo), (''Bangkok'', london)]
   \<and> map_of (data (change_location_name ''London'' ''Paris'' route)) ''Oslo'' = Some oslo"
proof -
  have wf: "od_wf (data route)" by (simp add: route_simps)
  have old: "map_of (data route) ''London'' = Some london" by (simp add: route_simps)
  have rest: "od_delitem ''London'' (data route) = [(''Oslo'', oslo), (''Bangkok'', bangkok)]"
    by (simp add: route_simps)
  have fresh: "\<not> od_in ''Paris'' (data route)" by (simp add: route_simps)
  note t = change_location_name_effect[OF wf old]
  from t[of "''Paris''" 0 "''Oslo''"] t[of "''London''" 0 "''Oslo''"] t[of "''Bangkok''" 1 "''Oslo''"]
    wf old fresh
  show ?thesis by (simp add: rest)
qed

text \<open>
  The claim that the renamed location keeps its position fails on the first stop of
  the example route: London is at index 0 and Paris at index 2.
\<close>

theorem change_location_name_position_counterexample:
  "od_keys (data route) ! 0 = ''London''
   \<and> od_keys (data (change_location_name ''London'' ''Paris'' route)) ! 0 \<noteq> ''Paris''
   \<and> od_keys (data (change_location_name ''London'' ''Paris'' route))
       = [''Oslo'', ''Bangkok'', ''Paris'']"
  by (simp add: route_simps change_location_name_def save_data_def say_def)

subsection \<open>Adding a location\<close>

lemma add_location_resolved:
  assumes "geocode (name @ '', '' @ country) = Coordinate lat lon"
  shows "data (add_location geocode name country days transport position after_place w) =
           (if position = ''start''
            then od_update [(name, Tup5 country lat lon days transport)] (data w)
            else if position = ''after'' \<and> opt_in after_place (data w)
            then after_loop name (Tup5 country lat lon days transport) after_place (data w) []
            else od_setitem name (Tup5 country lat lon days transport) (data w))"
  using assms by (simp add: add_location_def get_lat_lon_def Let_def data_save_data data_say)

lemma add_location_keys:
  assumes "geocode (name @ '', '' @ country) = Coordinate lat lon"
  shows "set (od_keys (data (add_location geocode name country days transport position after_place w)))
         = insert name (set (od_keys (data w)))"
  by (auto simp: add_location_resolved[of geocode name country lat lon, OF assms] keys_update keys_after_loop keys_setitem keys_Cons keys_Nil)

lemma add_location_wf:
  assumes "geocode (name @ '', '' @ country) = Coordinate lat lon" "od_wf (data w)"
  shows "od_wf (data (add_location geocode name country days transport position after_place w))"
proof -
  have "od_wf [(name, Tup5 country lat lon days transport)]" "od_wf ([] :: (string, 'a details) odict)"
    by (simp_all add: od_wf_def keys_Cons keys_Nil)
  then show ?thesis
    using assms(2) by (simp add: add_location_resolved[of geocode name country lat lon, OF assms(1)] wf_update wf_after_loop wf_setitem)
qed

text \<open>
  C4: in a store with unique keys, adding a fresh name whose coordinates resolve puts
  it first with \<^verbatim>\<open>"start"\<close> (every existing item one place later), last with
  \<^verbatim>\<open>"end"\<close> and with the defaults, right behind the item at index \<open>i\<close> with
  \<^verbatim>\<open>"after"\<close> and that item's name, and last with \<^verbatim>\<open>"after"\<close> and a name (or
  \<^verbatim>\<open>None\<close>) that is not in the store.
\<close>

theorem add_location_placement:
  assumes "od_wf (data w)" and "\<not> od_in name (data w)"
    and "geocode (name @ '', '' @ country) = Coordinate lat lon"
  shows "data (add_location geocode name country days transport ''start'' after_place w)
           = (name, Tup5 country lat lon days transport) # data w
       \<and> data (add_location geocode name country days transport ''end'' after_place w)
           = data w @ [(name, Tup5 country lat lon days transport)]
       \<and> data (add_location_default geocode name country days w)
           = data w @ [(name, Tup5 country lat lon days ''Unknown'')]
       \<and> (i < length (data w) \<and> fst (data w ! i) = after_name \<longrightarrow>
            data (add_location geocode name country days transport ''after'' (Some after_name) w)
              = take (Suc i) (data w) @ (name, Tup5 country lat lon days transport)
                  # drop (Suc i) (data w))
       \<and> (\<not> opt_in after_place (data w) \<longrightarrow>
            data (add_location geocode name country days transport ''after'' after_place w)
              = data w @ [(name, Tup5 country lat lon days transport)])"
proof (intro conjI impI)
  have fresh: "name \<notin> set (od_keys (data w))" using assms(2) by (simp add: od_in_def)
  show "data (add_location geocode name country days transport ''start'' after_place w)
           = (name, Tup5 country lat lon days transport) # data w"
    using assms(1) fresh
    by (simp add: add_location_resolved[of geocode name country lat lon, OF assms(3)] update_fresh keys_Cons keys_Nil)
  show "data (add_location geocode name country days transport ''end'' after_place w)
           = data w @ [(name, Tup5 country lat lon days transport)]"
    by (simp add: add_location_resolved[of geocode name country lat lon, OF assms(3)] setitem_fresh[OF fresh])
  show "data (add_location_default geocode name country days w)
           = data w @ [(name, Tup5 country lat lon days ''Unknown'')]"
    by (simp add: add_location_default_def add_location_resolved[of geocode name country lat lon, OF assms(3)] setitem_fresh[OF fresh])
  show "data (add_location geocode name country days transport ''after'' after_place w)
              = data w @ [(name, Tup5 country lat lon days transport)]"
    if "\<not> opt_in after_place (data w)"
    using that by (simp add: add_location_resolved[of geocode name country lat lon, OF assms(3)] setitem_fresh[OF fresh])
  show "data (add_location geocode name country days transport ''after'' (Some after_name) w)
              = take (Suc i) (data w) @ (name, Tup5 country lat lon days transport)
                  # drop (Suc i) (data w)"
    if "i < length (data w) \<and> fst (data w ! i) = after_name"
  proof -
    from that have "opt_in (Some after_name) (data w)"
      using key_of_nth by (auto simp: opt_in_def od_in_def)
    then show ?thesis
      using that assms(1) fresh
      by (simp add: add_location_resolved[of geocode name country lat lon, OF assms(3)] after_loop_at_index)
  qed
qed

text \<open>
  Paris added to the route London, Oslo, Bangkok in each of the five ways.
\<close>

theorem add_location_placement_witness:
  "od_wf (data route) \<and> \<not> od_in ''Paris'' (data route)
   \<and> data (add_location geocode_ok ''Paris'' ''France'' 2 ''Train'' ''start'' None route)
       = [(''Paris'', Tup5 ''France'' 48.8566 2.3522 2 ''Train''),
          (''London'', london), (''Oslo'', oslo), (''Bangkok'', bangkok)]
   \<and> data (add_location geocode_ok ''Paris'' ''France'' 2 ''Train'' ''end'' None route)
       = [(''London'', london), (''Oslo'', oslo), (''Bangkok'', bangkok),
          (''Paris'', Tup5 ''France'' 48.8566 2.3522 2 ''Train'')]
   \<and> data (add_location_default geocode_ok ''Paris'' ''France'' 2 route)
       = [(''London'', london), (''Oslo'', oslo), (''Bangkok'', bangkok),
          (''Paris'', Tup5 ''France'' 48.8566 2.3522 2 ''Unknown'')]
   \<and> data (add_location geocode_ok ''Paris'' ''France'' 2 ''Train'' ''after'' (Some ''Oslo'') route)
       = [(''London'', london), (''Oslo'', oslo),
          (''Paris'', Tup5 ''France'' 48.8566 2.3522 2 ''Train''), (''Bangkok'', bangkok)]
   \<and> data (add_location geocode_ok ''Paris'' ''France'' 2 ''Train'' ''after'' (Some ''Rome'') route)
       = [(''London'', london), (''Oslo'', oslo), (''Bangkok'', bangkok),
          (''Paris'', Tup5 ''France'' 48.8566 2.3522 2 ''Train'')]"
proof -
  have wf: "od_wf (data route)" by (simp add: route_simps)
  have fresh: "\<not> od_in ''Paris'' (data route)" by (simp add: route_simps)
  have geo: "geocode_ok (''Paris'' @ '', '' @ ''France'') = Coordinate 48.8566 2.3522"
    by (simp add: geocode_ok_def)
  have absent: "\<not> opt_in (Some ''Rome'') (data route)" by (simp add: route_simps)
  have at: "1 < length (data route) \<and> fst (data route ! 1) = ''Oslo''" by (simp add: route_simps)
  note t = add_location_placement[of route "''Paris''" geocode_ok "''France''" "48.8566" "2.3522",
      OF wf fresh geo]
  from t[of 2 "''Train''" None 1 "''Oslo''"] t[of 2 "''Train''" "Some ''Rome''" 1 "''Oslo''"]
    wf fresh absent at
  show ?thesis by (simp add: route_def)
qed

text \<open>
  C3 (as the code has it): adding a name that the store already holds never yields a
  second entry of that name. Whatever the position, the store keeps unique keys, the
  same set of keys and the same number of entries, and the name occurs once.
\<close>

theorem add_location_existing_name:
  assumes "od_wf (data w)" and "od_in name (data w)"
    and "geocode (name @ '', '' @ country) = Coordinate lat lon"
  shows "od_wf (data (add_location geocode name country days transport position after_place w))
       \<and> set (od_keys (data (add_location geocode name country days transport position after_place w)))
           = set (od_keys (data w))
       \<and> length (data (add_location geocode name country days transport position after_place w))
           = length (data w)
       \<and> count_list (od_keys (data (add_location geocode name country days transport position
             after_place w))) name = 1"
proof -
  let ?d = "data (add_location geocode name country days transport position after_place w)"
  have wf: "od_wf ?d" using add_location_wf[of geocode name country lat lon, OF assms(3,1)] .
  have keys: "set (od_keys ?d) = set (od_keys (data w))"
    using assms(2) by (auto simp: add_location_keys[of geocode name country lat lon, OF assms(3)] od_in_def)
  have len: "length ?d = length (data w)"
    using assms(1) wf keys by (rule same_keys_same_length)
  have "count_list (od_keys ?d) name = 1"
    using wf keys assms(2) by (intro count_list_distinct) (simp_all add: od_wf_def od_in_def)
  with wf keys len show ?thesis by blast
qed

text \<open>
  Oslo added again, after London, to the route London, Oslo, Bangkok.
\<close>

theorem add_location_existing_name_witness:
  "od_wf (data route) \<and> od_in ''Oslo'' (data route)
   \<and> od_wf (data (add_location geocode_ok ''Oslo'' ''Norway'' 2 ''Bus'' ''after'' (Some ''London'')
        route))
   \<and> set (od_keys (data (add_location geocode_ok ''Oslo'' ''Norway'' 2 ''Bus'' ''after''
        (Some ''London'') route))) = {''London'', ''Oslo'', ''Bangkok''}
   \<and> length (data (add_location geocode_ok ''Oslo'' ''Norway'' 2 ''Bus'' ''after'' (Some ''London'')
        route)) = 3
   \<and> count_list (od_keys (data (add_location geocode_ok ''Oslo'' ''Norway'' 2 ''Bus'' ''after''
        (Some ''London'') route))) ''Oslo'' = 1"
proof -
  have wf: "od_wf (data route)" by (simp add: route_simps)
  have present: "od_in ''Oslo'' (data route)" by (simp add: route_simps)
  have geo: "geocode_ok (''Oslo'' @ '', '' @ ''Norway'') = Coordinate 48.8566 2.3522"
    by (simp add: geocode_ok_def)
  have keys: "set (od_keys (data route)) = {''London'', ''Oslo'', ''Bangkok''}"
    and len: "length (data route) = 3" by (simp_all add: route_simps)
  from add_location_existing_name[of route "''Oslo''" geocode_ok "''Norway''" "48.8566" "2.3522"
      2 "''Bus''" "''after''" "Some ''London''", OF wf present geo] wf present keys len
  show ?thesis by simp
qed

text \<open>
  The claim that two entries share the name afterwards fails: after adding Oslo to a
  route that holds Oslo, the keys are those of before and Oslo is not there twice.
\<close>

theorem add_location_duplicate_counterexample:
  "od_in ''Oslo'' (data route)
   \<and> count_list (od_keys (data (add_location geocode_ok ''Oslo'' ''Norway'' 2 ''Bus'' ''end'' None
         route))) ''Oslo'' \<noteq> 2
   \<and> od_keys (data (add_location geocode_ok ''Oslo'' ''Norway'' 2 ''Bus'' ''end'' None route))
       = [''London'', ''Oslo'', ''Bangkok'']"
  by (simp add: route_simps run_simps)

text \<open>
  C9: adding at \<^verbatim>\<open>"start"\<close> a name that the store already holds leaves that name
  first, with the tuple it had before; the country, coordinates, days and transport
  passed to the call are lost, because \<^verbatim>\<open>updated_data.update(self.data)\<close> writes
  the old tuple over the new one. The other items follow in their order.
\<close>

theorem add_location_start_existing:
  assumes "od_wf (data w)" and "map_of (data w) name = Some old"
    and "geocode (name @ '', '' @ country) = Coordinate lat lon"
  shows "data (add_location geocode name country days transport ''start'' after_place w)
           = (name, old) # od_delitem name (data w)"
  using assms(1,2) by (simp add: add_location_resolved[of geocode name country lat lon, OF assms(3)] update_existing_front)

text \<open>
  Oslo added at the start as a nine-day stop in Sweden is first and still the four-day
  stop in Norway.
\<close>

theorem add_location_start_existing_witness:
  "od_wf (data route) \<and> map_of (data route) ''Oslo'' = Some oslo
   \<and> data (add_location geocode_ok ''Oslo'' ''Sweden'' 9 ''Boat'' ''start'' None route)
       = [(''Oslo'', Tup5 ''Norway'' 59.9139 10.7522 4 ''Plane''), (''London'', london),
          (''Bangkok'', bangkok)]"
proof -
  have wf: "od_wf (data route)" by (simp add: route_simps)
  have old: "map_of (data route) ''Oslo'' = Some oslo" by (simp add: route_simps)
  have geo: "geocode_ok (''Oslo'' @ '', '' @ ''Sweden'') = Coordinate 48.8566 2.3522"
    by (simp add: geocode_ok_def)
  from add_location_start_existing[of route "''Oslo''" oslo geocode_ok "''Sweden''" "48.8566"
      "2.3522" 9 "''Boat''" None, OF wf old geo] wf old
  show ?thesis by (simp add: route_simps)
qed

text \<open>
  C10: a position that is not exactly \<^verbatim>\<open>"start"\<close>, and either is not exactly
  \<^verbatim>\<open>"after"\<close> or comes with \<^verbatim>\<open>after_place = None\<close>, behaves as \<^verbatim>\<open>"end"\<close> in
  every respect; for a fresh name with coordinates the location is appended.
\<close>

theorem add_location_other_position:
  assumes "position \<noteq> ''start''" and "position \<noteq> ''after'' \<or> after_place = None"
  shows "add_location geocode name country days transport position after_place w
           = add_location geocode name country days transport ''end'' None w
       \<and> (\<not> od_in name (data w) \<and> geocode (name @ '', '' @ country) = Coordinate lat lon \<longrightarrow>
            data (add_location geocode name country days transport position after_place w)
              = data w @ [(name, Tup5 country lat lon days transport)])"
proof (intro conjI impI)
  have no_after: "\<not> (position = ''after'' \<and> opt_in after_place (data w))"
    using assms(2) by (auto simp: opt_in_def)
  show "add_location geocode name country days transport position after_place w
           = add_location geocode name country days transport ''end'' None w"
    using assms(1) no_after
    by (cases "geocode (name @ '', '' @ country)")
       (auto simp: add_location_def get_lat_lon_def Let_def)
  show "data (add_location geocode name country days transport position after_place w)
              = data w @ [(name, Tup5 country lat lon days transport)]"
    if h: "\<not> od_in name (data w) \<and> geocode (name @ '', '' @ country) = Coordinate lat lon"
  proof -
    from h have geo: "geocode (name @ '', '' @ country) = Coordinate lat lon"
      and fresh: "name \<notin> set (od_keys (data w))" by (simp_all add: od_in_def)
    show ?thesis using assms(1) no_after
      by (auto simp: add_location_resolved[of geocode name country lat lon, OF geo] setitem_fresh[OF fresh])
  qed
qed

text \<open>
  \<^verbatim>\<open>"Start"\<close>, \<^verbatim>\<open>"END"\<close> and \<^verbatim>\<open>"after"\<close> without a place all append Paris.
\<close>

theorem add_location_other_position_witness:
  "add_location geocode_ok ''Paris'' ''France'' 2 ''Train'' ''Start'' (Some ''Oslo'') route
     = add_location geocode_ok ''Paris'' ''France'' 2 ''Train'' ''end'' None route
   \<and> add_location geocode_ok ''Paris'' ''France'' 2 ''Train'' ''END'' None route
     = add_location geocode_ok ''Paris'' ''France'' 2 ''Train'' ''end'' None route
   \<and> add_location geocode_ok ''Paris'' ''France'' 2 ''Train'' ''after'' None route
     = add_location geocode_ok ''Paris'' ''France'' 2 ''Train'' ''end'' None route
   \<and> data (add_location geocode_ok ''Paris'' ''France'' 2 ''Train'' ''Start'' (Some ''Oslo'') route)
     = [(''London'', london), (''Oslo'', oslo), (''Bangkok'', bangkok),
        (''Paris'', Tup5 ''France'' 48.8566 2.3522 2 ''Train'')]"
proof -
  have fresh: "\<not> od_in ''Paris'' (data route)" by (simp add: route_simps)
  have geo: "geocode_ok (''Paris'' @ '', '' @ ''France'') = Coordinate 48.8566 2.3522"
    by (simp add: geocode_ok_def)
  have p1: "''Start'' \<noteq> ''start''" "''Start'' \<noteq> ''after'' \<or> Some ''Oslo'' = None" by simp_all
  have p2: "''END'' \<noteq> ''start''" "''END'' \<noteq> ''after'' \<or> (None :: string option) = None"
    by simp_all
  have p3: "''after'' \<noteq> ''start''" "''after'' \<noteq> ''after'' \<or> (None :: string option) = None"
    by simp_all
  note t1 = add_location_other_position[OF p1, of geocode_ok "''Paris''" "''France''" 2 "''Train''"
      route "48.8566" "2.3522"]
  note t2 = add_location_other_position[OF p2, of geocode_ok "''Paris''" "''France''" 2 "''Train''"
      route "48.8566" "2.3522"]
  note t3 = add_location_other_position[OF p3, of geocode_ok "''Paris''" "''France''" 2 "''Train''"
      route "48.8566" "2.3522"]
  have "data (add_location geocode_ok ''Paris'' ''France'' 2 ''Train'' ''Start'' (Some ''Oslo'') route)
     = [(''London'', london), (''Oslo'', oslo), (''Bangkok'', bangkok),
        (''Paris'', Tup5 ''France'' 48.8566 2.3522 2 ''Train'')]"
    using t1[THEN conjunct2] fresh geo by (simp add: route_def)
  with t1[THEN conjunct1] t2[THEN conjunct1] t3[THEN conjunct1]
  show ?thesis by blast
qed

text \<open>
  C6: when the geocoder finds nothing or times out, \<^verbatim>\<open>add_location\<close> leaves the
  dictionary and the pickle file as they were and prints two lines, the reason and
  \<^verbatim>\<open>Skipping\<close>; neither of the two lines of \<^verbatim>\<open>save_data\<close> is printed, so no
  write was attempted.
\<close>

theorem add_location_unresolved:
  assumes "geocode (name @ '', '' @ country) = NotFound
         \<or> geocode (name @ '', '' @ country) = TimedOut"
  shows "data (add_location geocode name country days transport position after_place w) = data w
       \<and> disk (add_location geocode name country days transport position after_place w) = disk w
       \<and> printed (add_location geocode name country days transport position after_place w)
           = printed w @
               [if geocode (name @ '', '' @ country) = NotFound
                then NoCoordinatesMsg (name @ '', '' @ country) else GeoTimedOutMsg,
                SkippingMsg name]"
  using assms by (auto simp: add_location_def get_lat_lon_def say_def)

text \<open>
  An unknown place and a timeout on the example route, which has no file yet.
\<close>

theorem add_location_unresolved_witness:
  "data (add_location geocode_none ''Atlantis'' ''Nowhere'' 3 ''Boat'' ''start'' None route)
     = data route
   \<and> disk (add_location geocode_none ''Atlantis'' ''Nowhere'' 3 ''Boat'' ''start'' None route) = None
   \<and> printed (add_location geocode_none ''Atlantis'' ''Nowhere'' 3 ''Boat'' ''start'' None route)
     = [NoCoordinatesMsg ''Atlantis, Nowhere'', SkippingMsg ''Atlantis'']
   \<and> data (add_location geocode_late ''Paris'' ''France'' 2 ''Train'' ''end'' None route) = data route
   \<and> disk (add_location geocode_late ''Paris'' ''France'' 2 ''Train'' ''end'' None route) = None
   \<and> printed (add_location geocode_late ''Paris'' ''France'' 2 ''Train'' ''end'' None route)
     = [GeoTimedOutMsg, SkippingMsg ''Paris'']"
proof -
  have none: "geocode_none (''Atlantis'' @ '', '' @ ''Nowhere'') = NotFound
            \<or> geocode_none (''Atlantis'' @ '', '' @ ''Nowhere'') = TimedOut"
    by (simp add: geocode_none_def)
  have late: "geocode_late (''Paris'' @ '', '' @ ''France'') = NotFound
            \<or> geocode_late (''Paris'' @ '', '' @ ''France'') = TimedOut"
    by (simp add: geocode_late_def)
  from add_location_unresolved[of geocode_none "''Atlantis''" "''Nowhere''" 3 "''Boat''" "''start''"
         None route, OF none]
       add_location_unresolved[of geocode_late "''Paris''" "''France''" 2 "''Train''" "''end''"
         None route, OF late]
  show ?thesis by (simp add: geocode_none_def geocode_late_def route_def)
qed

subsection \<open>Moving a location\<close>

lemma move_location_absent:
  "\<not> od_in name (data w) \<Longrightarrow> move_location name new_position after_place w = say (NotInListMsg name) w"
  by (simp add: move_location_def od_in_def lookup_None_iff[symmetric])

lemma move_location_data:
  assumes "map_of (data w) name = Some t"
  shows "data (move_location name new_position after_place w) =
           (if new_position = ''start''
            then od_update [(name, t)] (od_delitem name (data w))
            else if new_position = ''after'' \<and> opt_in after_place (od_delitem name (data w))
            then after_loop name t after_place (od_delitem name (data w)) []
            else od_setitem name t (od_delitem name (data w)))"
  using assms by (simp add: move_location_def Let_def data_save_data data_say)

lemma popped_key_gone: "name \<notin> set (od_keys (od_delitem name d))"
  by (simp add: keys_delitem)

lemma move_location_keys:
  assumes "map_of (data w) name = Some t"
  shows "set (od_keys (data (move_location name new_position after_place w))) = set (od_keys (data w))"
proof -
  have "name \<in> set (od_keys (data w))"
    using assms lookup_None_iff[of "data w" name] by auto
  then have "insert name (set (od_keys (od_delitem name (data w)))) = set (od_keys (data w))"
    by (auto simp: keys_delitem)
  moreover have "set (od_keys (data (move_location name new_position after_place w)))
      = insert name (set (od_keys (od_delitem name (data w))))"
    by (auto simp: move_location_data[OF assms] keys_update keys_after_loop keys_setitem
        keys_Cons keys_Nil)
  ultimately show ?thesis by simp
qed

lemma move_location_wf:
  assumes "map_of (data w) name = Some t" "od_wf (data w)"
  shows "od_wf (data (move_location name new_position after_place w))"
proof -
  have "od_wf [(name, t)]" "od_wf ([] :: (string, 'a details) odict)"
    by (simp_all add: od_wf_def keys_Cons keys_Nil)
  moreover have "od_wf (od_delitem name (data w))" using assms(2) by (rule wf_delitem)
  ultimately show ?thesis
    by (simp add: move_location_data[OF assms(1)] wf_update wf_after_loop wf_setitem)
qed

text \<open>
  C5: in a store with unique keys, \<^verbatim>\<open>move_location\<close> of a name that is not there
  changes neither the dictionary nor the file and prints the not-found line. For a name
  that is there, with tuple \<open>t\<close>, the name is taken out and put back: first with
  \<^verbatim>\<open>"start"\<close>; right behind the item at index \<open>i\<close> of the remaining sequence with
  \<^verbatim>\<open>"after"\<close> and that item's name; last otherwise. The keys stay unique and the
  same, so no name is doubled or lost. In particular \<^verbatim>\<open>"start"\<close> leaves the name at
  index 0 of the keys, and \<^verbatim>\<open>"after"\<close> with a place that is not in the store leaves
  it last.
\<close>

theorem move_location_contract:
  assumes "od_wf (data w)"
  shows "(\<not> od_in name (data w) \<longrightarrow>
            data (move_location name new_position after_place w) = data w
          \<and> disk (move_location name new_position after_place w) = disk w
          \<and> printed (move_location name new_position after_place w)
              = printed w @ [NotInListMsg name])
       \<and> (map_of (data w) name = Some t \<longrightarrow>
            (new_position = ''start'' \<longrightarrow>
               data (move_location name new_position after_place w)
                 = (name, t) # od_delitem name (data w))
          \<and> (new_position = ''after'' \<and> after_place = Some after_name
               \<and> i < length (od_delitem name (data w))
               \<and> fst (od_delitem name (data w) ! i) = after_name \<longrightarrow>
               data (move_location name new_position after_place w)
                 = take (Suc i) (od_delitem name (data w)) @ (name, t)
                     # drop (Suc i) (od_delitem name (data w)))
          \<and> (new_position \<noteq> ''start''
               \<and> \<not> (new_position = ''after'' \<and> opt_in after_place (od_delitem name (data w))) \<longrightarrow>
               data (move_location name new_position after_place w)
                 = od_delitem name (data w) @ [(name, t)])
          \<and> od_wf (data (move_location name new_position after_place w))
          \<and> set (od_keys (data (move_location name new_position after_place w)))
              = set (od_keys (data w))
          \<and> length (data (move_location name new_position after_place w)) = length (data w)
          \<and> (new_position = ''start'' \<longrightarrow>
               od_keys (data (move_location name new_position after_place w)) ! 0 = name)
          \<and> (new_position = ''after'' \<and> \<not> opt_in after_place (data w) \<longrightarrow>
               last (od_keys (data (move_location name new_position after_place w))) = name))"
proof (intro conjI impI)
  let ?w' = "move_location name new_position after_place w"
  let ?rest = "od_delitem name (data w)"
  have gone: "name \<notin> set (od_keys ?rest)" by (rule popped_key_gone)
  have wf_rest: "od_wf ?rest" using assms by (rule wf_delitem)
  {
    assume "\<not> od_in name (data w)"
    then have eq: "?w' = say (NotInListMsg name) w" by (rule move_location_absent)
    show "data ?w' = data w" by (simp add: eq say_def)
    show "disk ?w' = disk w" by (simp add: eq say_def)
    show "printed ?w' = printed w @ [NotInListMsg name]" by (simp add: eq say_def)
  }
  assume t: "map_of (data w) name = Some t"
  note d = move_location_data[OF t]
  have start: "data ?w' = (name, t) # ?rest" if "new_position = ''start''"
    using that wf_rest gone by (simp add: d update_fresh keys_Cons keys_Nil)
  have fallback: "data ?w' = ?rest @ [(name, t)]"
    if "new_position \<noteq> ''start'' \<and> \<not> (new_position = ''after'' \<and> opt_in after_place ?rest)"
    using that by (auto simp: d setitem_fresh[OF gone])
  show "data ?w' = (name, t) # ?rest" if "new_position = ''start''"
    using that by (rule start)
  show "data ?w' = ?rest @ [(name, t)]"
    if "new_position \<noteq> ''start'' \<and> \<not> (new_position = ''after'' \<and> opt_in after_place ?rest)"
    using that by (rule fallback)
  show "data ?w' = take (Suc i) ?rest @ (name, t) # drop (Suc i) ?rest"
    if h: "new_position = ''after'' \<and> after_place = Some after_name
           \<and> i < length ?rest \<and> fst (?rest ! i) = after_name"
  proof -
    from h have "opt_in after_place ?rest"
      using key_of_nth[of i ?rest] by (auto simp: opt_in_def od_in_def)
    with h show ?thesis
      using wf_rest gone by (simp add: d after_loop_at_index)
  qed
  show wf': "od_wf (data ?w')" using t assms by (rule move_location_wf)
  show keys': "set (od_keys (data ?w')) = set (od_keys (data w))" using t by (rule move_location_keys)
  show "length (data ?w') = length (data w)" using assms wf' keys' by (rule same_keys_same_length)
  show "od_keys (data ?w') ! 0 = name" if "new_position = ''start''"
    using start[OF that] by (simp add: keys_Cons)
  show "last (od_keys (data ?w')) = name"
    if h: "new_position = ''after'' \<and> \<not> opt_in after_place (data w)"
  proof -
    from h have "\<not> opt_in after_place ?rest"
      by (auto simp: opt_in_def od_in_def keys_delitem split: option.splits)
    with h have "data ?w' = ?rest @ [(name, t)]" by (intro fallback) simp
    then show ?thesis by (simp add: keys_append keys_Cons keys_Nil)
  qed
qed

text \<open>
  On the route London, Oslo, Bangkok: Rome cannot be moved; Bangkok moves to the start;
  London moves behind Oslo, behind the absent Rome (to the end), and to the end.
\<close>

theorem move_location_contract_witness:
  "od_wf (data route)
   \<and> \<not> od_in ''Rome'' (data route)
   \<and> data (move_location ''Rome'' ''start'' None route) = data route
   \<and> disk (move_location ''Rome'' ''start'' None route) = disk route
   \<and> printed (move_location ''Rome'' ''start'' None route) = [NotInListMsg ''Rome'']
   \<and> map_of (data route) ''Bangkok'' = Some bangkok
   \<and> data (move_location ''Bangkok'' ''start'' None route)
       = [(''Bangkok'', bangkok), (''London'', london), (''Oslo'', oslo)]
   \<and> od_keys (data (move_location ''Bangkok'' ''start'' None route)) ! 0 = ''Bangkok''
   \<and> map_of (data route) ''London'' = Some london
   \<and> data (move_location ''London'' ''after'' (Some ''Oslo'') route)
       = [(''Oslo'', oslo), (''London'', london), (''Bangkok'', bangkok)]
   \<and> data (move_location ''London'' ''after'' (Some ''Rome'') route)
       = [(''Oslo'', oslo), (''Bangkok'', bangkok), (''London'', london)]
   \<and> last (od_keys (data (move_location ''London'' ''after'' (Some ''Rome'') route))) = ''London''
   \<and> data (move_location ''London'' ''end'' None route)
       = [(''Oslo'', oslo), (''Bangkok'', bangkok), (''London'', london)]
   \<and> od_wf (data (move_location ''London'' ''end'' None route))
   \<and> length (data (move_location ''London'' ''end'' None route)) = 3"
proof -
  have wf: "od_wf (data route)" by (simp add: route_simps)
  have absent: "\<not> od_in ''Rome'' (data route)" by (simp add: route_simps)
  have b: "map_of (data route) ''Bangkok'' = Some bangkok" by (simp add: route_simps)
  have l: "map_of (data route) ''London'' = Some london" by (simp add: route_simps)
  have rest_b: "od_delitem ''Bangkok'' (data route) = [(''London'', london), (''Oslo'', oslo)]"
    and rest_l: "od_delitem ''London'' (data route) = [(''Oslo'', oslo), (''Bangkok'', bangkok)]"
    by (simp_all add: route_simps)
  have no_rome: "\<not> opt_in (Some ''Rome'') (data route)"
    "\<not> opt_in (Some ''Rome'') [(''Oslo'', oslo), (''Bangkok'', bangkok)]"
    "\<not> opt_in None [(''Oslo'', oslo), (''Bangkok'', bangkok)]"
    by (simp_all add: route_simps)
  have len: "length (data route) = 3" by (simp add: route_def)
  note t = move_location_contract[OF wf]
  from t[of "''Rome''" "''start''" None bangkok "''Oslo''" 0] absent
  have 1: "data (move_location ''Rome'' ''start'' None route) = data route
         \<and> disk (move_location ''Rome'' ''start'' None route) = disk route
         \<and> printed (move_location ''Rome'' ''start'' None route) = [NotInListMsg ''Rome'']"
    by (simp add: route_def)
  from t[of "''Bangkok''" "''start''" None bangkok "''Oslo''" 0] b
  have 2: "data (move_location ''Bangkok'' ''start'' None route)
             = [(''Bangkok'', bangkok), (''London'', london), (''Oslo'', oslo)]
         \<and> od_keys (data (move_location ''Bangkok'' ''start'' None route)) ! 0 = ''Bangkok''"
    by (simp add: rest_b od_keys_def)
  from t[of "''London''" "''after''" "Some ''Oslo''" london "''Oslo''" 0] l
  have 3: "data (move_location ''London'' ''after'' (Some ''Oslo'') route)
             = [(''Oslo'', oslo), (''London'', london), (''Bangkok'', bangkok)]"
    by (simp add: rest_l)
  from t[of "''London''" "''after''" "Some ''Rome''" london "''Oslo''" 0] l no_rome
  have 4: "data (move_location ''London'' ''after'' (Some ''Rome'') route)
             = [(''Oslo'', oslo), (''Bangkok'', bangkok), (''London'', london)]
         \<and> last (od_keys (data (move_location ''London'' ''after'' (Some ''Rome'') route)))
             = ''London''"
    by (simp add: rest_l od_keys_def)
  from t[of "''London''" "''end''" None london "''Oslo''" 0] l no_rome len
  have 5: "data (move_location ''London'' ''end'' None route)
             = [(''Oslo'', oslo), (''Bangkok'', bangkok), (''London'', london)]
         \<and> od_wf (data (move_location ''London'' ''end'' None route))
         \<and> length (data (move_location ''London'' ''end'' None route)) = 3"
    by (simp add: rest_l od_wf_def od_keys_def)
  from wf absent b l 1 2 3 4 5 show ?thesis by blast
qed

subsection \<open>Days per country\<close>

lemma set_first_seen: "set (first_seen xs) = set xs"
  by (induction xs) auto

lemma distinct_first_seen: "distinct (first_seen xs)"
  by (induction xs) (auto simp: distinct_removeAll)

lemma count_days_Nil: "count_days [] cd = cd"
  by (simp add: count_days_def)

lemma count_days_Cons:
  "count_days ((place, details) # items) cd =
     count_days items (dd_add (country_of details) (days_of details) cd)"
  by (simp add: count_days_def)

lemma keys_dd_add:
  "od_keys (dd_add c n cd) = (if c \<in> set (od_keys cd) then od_keys cd else od_keys cd @ [c])"
  by (simp add: dd_add_def keys_setitem)

lemma lookup_dd_add:
  "map_of (dd_add c n cd) c' =
     (if c' = c then Some ((case map_of cd c of None \<Rightarrow> 0 | Some t \<Rightarrow> t) + n) else map_of cd c')"
  by (simp add: dd_add_def lookup_setitem lookup_setitem_other)

lemma filter_removeAll_known:
  "c \<in> A \<Longrightarrow> filter (\<lambda>x. x \<notin> A) (removeAll c xs) = filter (\<lambda>x. x \<notin> A) xs"
  by (induction xs) auto

lemma filter_removeAll_new:
  "filter (\<lambda>x. x \<notin> insert c A) xs = filter (\<lambda>x. x \<notin> A) (removeAll c xs)"
  by (induction xs) auto

lemma keys_count_days:
  "od_keys (count_days items cd) =
     od_keys cd @ filter (\<lambda>c. c \<notin> set (od_keys cd)) (first_seen (countries items))"
proof (induction items arbitrary: cd)
  case Nil
  then show ?case by (simp add: count_days_Nil countries_def)
next
  case (Cons a items)
  obtain place details where a: "a = (place, details)" by (cases a)
  let ?c = "country_of details"
  show ?case
  proof (cases "?c \<in> set (od_keys cd)")
    case True
    then show ?thesis
      using filter_removeAll_known[OF True, of "first_seen (countries items)"]
      by (simp add: a count_days_Cons Cons.IH keys_dd_add countries_def)
  next
    case False
    then show ?thesis
      using filter_removeAll_new[of ?c "set (od_keys cd)" "first_seen (countries items)"]
      by (simp add: a count_days_Cons Cons.IH keys_dd_add countries_def)
  qed
qed

lemma total_count_days:
  "(case map_of (count_days items cd) c of None \<Rightarrow> 0 | Some t \<Rightarrow> t) =
     (case map_of cd c of None \<Rightarrow> 0 | Some t \<Rightarrow> t) + country_total items c"
proof (induction items arbitrary: cd)
  case Nil
  then show ?case by (simp add: count_days_Nil country_total_def)
next
  case (Cons a items)
  obtain place details where a: "a = (place, details)" by (cases a)
  have tot: "country_total (a # items) c =
      (if country_of details = c then days_of details else 0) + country_total items c"
    by (simp add: a country_total_def)
  show ?case
    by (simp add: a[symmetric] tot) (simp add: a count_days_Cons Cons.IH lookup_dd_add)
qed

lemma lookup_count_days:
  "map_of (count_days items []) c =
     (if c \<in> set (countries items) then Some (country_total items c) else None)"
proof (cases "c \<in> set (countries items)")
  case True
  then have "c \<in> set (od_keys (count_days items []))"
    by (simp add: keys_count_days keys_Nil set_first_seen)
  then obtain t where t: "map_of (count_days items []) c = Some t"
    using lookup_None_iff[of "count_days items []" c] by auto
  with total_count_days[of items "[]" c] True show ?thesis by simp
next
  case False
  then have "c \<notin> set (od_keys (count_days items []))"
    by (simp add: keys_count_days keys_Nil set_first_seen)
  then show ?thesis using False by (simp add: lookup_None_iff)
qed

lemma days_listing_descending: "sorted_wrt (\<lambda>a b. snd b \<le> snd a) (days_listing cd)"
proof -
  have "sorted (map (\<lambda>x. - snd x) (days_listing cd))"
    unfolding days_listing_def by (rule sorted_sort_key)
  then show ?thesis by (simp add: sorted_wrt_map)
qed

lemma days_listing_stable:
  "filter (\<lambda>x. snd x = n) (days_listing cd) = filter (\<lambda>x. snd x = n) cd"
  using sort_key_stable[of "\<lambda>x. - snd x" "- n" cd] by (simp add: days_listing_def)

lemma days_listing_same_items:
  "set (days_listing cd) = set cd \<and> length (days_listing cd) = length cd"
  by (simp add: days_listing_def)

lemma abc_trip_data:
  "data abc_trip = [(''A'', Tup5 ''X'' 48.8566 2.3522 2 ''Unknown''),
                    (''B'', Tup5 ''Y'' 48.8566 2.3522 3 ''Unknown''),
                    (''C'', Tup5 ''X'' 48.8566 2.3522 1 ''Unknown'')]"
  by (simp add: abc_trip_def run_simps init_def load_data_def)

lemma abc_trip_days:
  "fst (days_per_country abc_trip) = [(''X'', 3), (''Y'', 3)]"
  by (simp add: days_per_country_def Let_def abc_trip_data count_days_def dd_add_def)

lemma abc_trip_listing:
  "days_listing (fst (days_per_country abc_trip)) = [(''X'', 3), (''Y'', 3)]"
  by (simp add: abc_trip_days days_listing_def sort_key_def)

text \<open>
  C7 (as the code has it): \<^verbatim>\<open>days_per_country\<close> returns the mapping from each
  country of the itinerary to the sum of the days of its waypoints, and the returned
  mapping enumerates the countries in the order in which they are first met in the
  sequence. The listing that the method prints holds the same items in descending order
  of the totals, and items with equal totals stay in the order of the returned mapping
  (first met first). After A (X, 2 days), B (Y, 3 days) and C (X, 1 day) are added at the
  end of an empty store, the result is X: 3, Y: 3 with X before Y, in the returned
  mapping and in the listing.
\<close>

theorem days_per_country_result:
  "od_keys (fst (days_per_country w)) = first_seen (countries (data w))
   \<and> map_of (fst (days_per_country w)) c
       = (if c \<in> set (countries (data w)) then Some (country_total (data w) c) else None)
   \<and> snd (days_per_country w)
       = w\<lparr>printed := printed w @ DaysHeaderMsg #
             map (\<lambda>(country, days). CountryDaysMsg country days)
                 (days_listing (fst (days_per_country w)))\<rparr>
   \<and> set (days_listing (fst (days_per_country w))) = set (fst (days_per_country w))
   \<and> length (days_listing (fst (days_per_country w))) = length (fst (days_per_country w))
   \<and> sorted_wrt (\<lambda>a b. snd b \<le> snd a) (days_listing (fst (days_per_country w)))
   \<and> filter (\<lambda>x. snd x = n) (days_listing (fst (days_per_country w)))
       = filter (\<lambda>x. snd x = n) (fst (days_per_country w))
   \<and> fst (days_per_country abc_trip) = [(''X'', 3), (''Y'', 3)]
   \<and> days_listing (fst (days_per_country abc_trip)) = [(''X'', 3), (''Y'', 3)]"
proof -
  have r: "fst (days_per_country w) = count_days (data w) []"
    by (simp add: days_per_country_def Let_def)
  have "od_keys (fst (days_per_country w)) = first_seen (countries (data w))"
    by (simp add: r keys_count_days keys_Nil)
  moreover have "map_of (fst (days_per_country w)) c
       = (if c \<in> set (countries (data w)) then Some (country_total (data w) c) else None)"
    unfolding r by (rule lookup_count_days)
  moreover have "snd (days_per_country w)
       = w\<lparr>printed := printed w @ DaysHeaderMsg #
             map (\<lambda>(country, days). CountryDaysMsg country days)
                 (days_listing (fst (days_per_country w)))\<rparr>"
    by (simp add: days_per_country_def Let_def)
  ultimately show ?thesis
    using days_listing_same_items days_listing_descending days_listing_stable
      abc_trip_days abc_trip_listing by blast
qed

text \<open>
  On the route London (UK, 0 days), Oslo (Norway, 4 days), Bangkok (Thailand, 4 days).
\<close>

theorem days_per_country_result_witness:
  "od_keys (fst (days_per_country route)) = [''UK'', ''Norway'', ''Thailand'']
   \<and> map_of (fst (days_per_country route)) ''Norway'' = Some 4
   \<and> map_of (fst (days_per_country route)) ''France'' = None
   \<and> sorted_wrt (\<lambda>a b. snd b \<le> snd a) (days_listing (fst (days_per_country route)))"
proof -
  have c: "countries (data route) = [''UK'', ''Norway'', ''Thailand'']"
    by (simp add: countries_def route_simps)
  have n: "country_total (data route) ''Norway'' = 4"
    by (simp add: country_total_def route_simps)
  from days_per_country_result[of route "''Norway''" 4] days_per_country_result[of route "''France''" 4]
  show ?thesis by (simp add: c n)
qed

text \<open>
  The claim that the returned mapping is enumerated in descending order of the totals
  fails on that route: the mapping starts with the UK and its 0 days, and only the
  printed listing starts with Norway.
\<close>

theorem days_per_country_order_counterexample:
  "fst (days_per_country route) = [(''UK'', 0), (''Norway'', 4), (''Thailand'', 4)]
   \<and> days_listing (fst (days_per_country route)) = [(''Norway'', 4), (''Thailand'', 4), (''UK'', 0)]
   \<and> fst (days_per_country route) \<noteq> days_listing (fst (days_per_country route))"
proof -
  have 1: "fst (days_per_country route) = [(''UK'', 0), (''Norway'', 4), (''Thailand'', 4)]"
    by (simp add: days_per_country_def Let_def route_simps count_days_def dd_add_def)
  have 2: "days_listing [(''UK'', 0), (''Norway'', 4), (''Thailand'', 4 :: int)]
             = [(''Norway'', 4), (''Thailand'', 4), (''UK'', 0)]"
    by (simp add: days_listing_def sort_key_def)
  show ?thesis by (simp add: 1 2)
qed

subsection \<open>Saving and loading\<close>

text \<open>
  C8: when the pickle file can be written, \<^verbatim>\<open>save_data\<close> followed by the
  construction of a new store on the same file gives a dictionary equal to the saved
  one: the same keys in the same order (unique if they were), each with the same tuple.
\<close>

theorem save_load_roundtrip:
  assumes "writable w"
  shows "data (init (disk (save_data w)) wr) = data w
       \<and> od_keys (data (init (disk (save_data w)) wr)) = od_keys (data w)
       \<and> (od_wf (data w) \<longrightarrow> od_wf (data (init (disk (save_data w)) wr)))"
  using assms by (simp add: init_def load_data_def save_data_def say_def)

text \<open>
  The example route saved and loaded again.
\<close>

theorem save_load_roundtrip_witness:
  "writable route
   \<and> data (init (disk (save_data route)) True)
       = [(''London'', london), (''Oslo'', oslo), (''Bangkok'', bangkok)]
   \<and> od_keys (data (init (disk (save_data route)) True)) = [''London'', ''Oslo'', ''Bangkok'']
   \<and> od_wf (data (init (disk (save_data route)) True))"
proof -
  have wr: "writable route" by (simp add: route_def)
  have wf: "od_wf (data route)" by (simp add: route_simps)
  from save_load_roundtrip[OF wr, of True] wr wf
  show ?thesis by (simp add: route_def od_keys_def)
qed

end
